theory Spec2Isabelle
  imports Main "HOL-Library.Sublist"
begin

section \<open>The task store \<open>TodoList\<close> of \<open>src/app.ts\<close>\<close>

text \<open>
  The class \<open>TodoList\<close> (lines 10 to 89 of \<open>src/app.ts\<close>) owns an array of
  \<open>TodoItem\<close> objects and a counter \<open>nextId\<close>. The first part of this theory is
  the value-level model of the class: the array is a list of records, a method is a function
  from the store to the thrown error or the returned value, paired with the store it leaves
  behind. The second part (section \<open>The store on a heap\<close>) keeps arrays and task objects
  at addresses, for the statements that depend on which references are shared.

  The TypeScript type \<open>number\<close> is an IEEE double. The ids of the class are the
  values of the counter \<open>nextId\<close>, integers from 1 to \<open>2 ^ 53\<close>, and are
  modelled as integers; the increment of the counter is \<open>js_incr\<close> below, which stays
  at \<open>2 ^ 53\<close> as the double does. A \<open>Date\<close> is represented by its time value
  (milliseconds since the epoch).
\<close>

subsection \<open>Data\<close>

type_synonym Date = int

text \<open>\<open>interface TodoItem\<close>; the field \<open>id\<close> is named \<open>todo_id\<close> here.\<close>

record TodoItem =
  todo_id :: int
  task :: string
  completed :: bool
  dueDate :: "Date option"

text \<open>The two private fields of \<open>class TodoList\<close>.\<close>

record TodoList =
  todos :: "TodoItem list"
  nextId :: int

text \<open>The field initialisers: \<open>todos = []\<close>, \<open>nextId = 1\<close>.\<close>

definition new_TodoList :: TodoList where
  "new_TodoList = \<lparr>todos = [], nextId = 1\<rparr>"

text \<open>
  Every \<open>throw\<close> of the class is \<open>new Error(`Todo with id ${id} not found`)\<close>; the
  value \<open>NotFound i\<close> stands for that error with \<open>id = i\<close>.
\<close>

datatype error = NotFound int

subsection \<open>The array methods the class calls\<close>

text \<open>\<open>Array.prototype.push\<close> with one argument.\<close>

definition array_push :: "'a list \<Rightarrow> 'a \<Rightarrow> 'a list" where
  "array_push xs x = xs @ [x]"

text \<open>\<open>Array.prototype.find\<close>: the first element satisfying the predicate,
  \<open>undefined\<close> (here \<open>None\<close>) when there is none.\<close>

fun array_find :: "('a \<Rightarrow> bool) \<Rightarrow> 'a list \<Rightarrow> 'a option" where
  "array_find p [] = None"
| "array_find p (x # xs) = (if p x then Some x else array_find p xs)"

text \<open>\<open>Array.prototype.findIndex\<close>: the index of that element, \<open>-1\<close> when there is
  none. The loop counts up from index \<open>k\<close>.\<close>

fun findIndex_from :: "('a \<Rightarrow> bool) \<Rightarrow> 'a list \<Rightarrow> int \<Rightarrow> int" where
  "findIndex_from p [] k = - 1"
| "findIndex_from p (x # xs) k = (if p x then k else findIndex_from p xs (k + 1))"

definition array_findIndex :: "('a \<Rightarrow> bool) \<Rightarrow> 'a list \<Rightarrow> int" where
  "array_findIndex p xs = findIndex_from p xs 0"

text \<open>\<open>Array.prototype.splice(start, deleteCount)\<close> with no inserted items: a negative
  \<open>start\<close> counts from the end, and both arguments are clamped to the array.\<close>

definition array_splice :: "int \<Rightarrow> int \<Rightarrow> 'a list \<Rightarrow> 'a list" where
  "array_splice start deleteCount xs =
     (let len = int (length xs);
          actualStart = (if start < 0 then max (len + start) 0 else min start len);
          actualDeleteCount = min (max deleteCount 0) (len - actualStart)
      in take (nat actualStart) xs @ drop (nat (actualStart + actualDeleteCount)) xs)"

text \<open>\<open>Array.prototype.filter\<close>: a new array of the elements satisfying the predicate,
  in the order they are visited.\<close>

fun array_filter :: "('a \<Rightarrow> bool) \<Rightarrow> 'a list \<Rightarrow> 'a list" where
  "array_filter p [] = []"
| "array_filter p (x # xs) = (if p x then x # array_filter p xs else array_filter p xs)"

text \<open>
  An assignment \<open>todo.f = v\<close> through the reference that \<open>find\<close> returned changes the
  object in the slot where \<open>find\<close> stopped. \<open>addTodo\<close> is the only code that puts an
  object into the array and it creates a new one each time, so no other slot holds the same
  object: on values, the assignment rewrites that one slot. The section \<open>The store on a
  heap\<close> has the same methods on references, and the lemmas on \<open>step_h\<close> and
  \<open>run_h\<close> show that they act on the stored tasks as the methods below do.
\<close>

fun assign_found :: "('a \<Rightarrow> bool) \<Rightarrow> ('a \<Rightarrow> 'a) \<Rightarrow> 'a list \<Rightarrow> 'a list" where
  "assign_found p f [] = []"
| "assign_found p f (x # xs) = (if p x then f x # xs else x # assign_found p f xs)"

subsection \<open>The methods of \<open>TodoList\<close>\<close>

text \<open>
  A method maps the store to a pair: \<open>Inl e\<close> when it throws \<open>e\<close> and \<open>Inr v\<close>
  when it returns \<open>v\<close> (\<open>()\<close> for a \<open>void\<close> method), and the store after the call.
\<close>

text \<open>The value at which the counter \<open>nextId\<close> stays.\<close>

definition max_nextId :: int where
  "max_nextId = 2 ^ 53"

text \<open>
  \<open>this.nextId++\<close> (line 17) on a double. The field starts at 1 and no other statement
  writes it, so it holds an integer from 1 to \<open>2 ^ 53\<close>. Below \<open>2 ^ 53\<close> adding 1
  is exact. At \<open>2 ^ 53\<close> the sum \<open>2 ^ 53 + 1\<close> is not a double and is rounded (to
  nearest, ties to even) back to \<open>2 ^ 53\<close>: the counter stays there. The function is the
  increment of the double for every integer from \<open>- (2 ^ 53)\<close> to \<open>2 ^ 53\<close>.
\<close>

definition js_incr :: "int \<Rightarrow> int" where
  "js_incr n = (if n < max_nextId then n + 1 else n)"

text \<open>\<open>addTodo\<close> (lines 15 to 23). The postfix \<open>++\<close> yields the old value of
  \<open>nextId\<close> for the \<open>id\<close> field and stores the incremented one. A call without the
  second argument takes the default \<open>dueDate = null\<close>, which is \<open>None\<close>.\<close>

definition addTodo :: "string \<Rightarrow> Date option \<Rightarrow> TodoList \<Rightarrow> (error + unit) \<times> TodoList" where
  "addTodo tsk due s =
     (let newTodo = \<lparr>todo_id = nextId s, task = tsk, completed = False, dueDate = due\<rparr>;
          s1 = s\<lparr>nextId := js_incr (nextId s)\<rparr>
      in (Inr (), s1\<lparr>todos := array_push (todos s1) newTodo\<rparr>))"

text \<open>\<open>completeTodo\<close> (lines 26 to 33).\<close>

definition completeTodo :: "int \<Rightarrow> TodoList \<Rightarrow> (error + unit) \<times> TodoList" where
  "completeTodo i s =
     (case array_find (\<lambda>todo. todo_id todo = i) (todos s) of
        Some todo \<Rightarrow>
          (Inr (), s\<lparr>todos := assign_found (\<lambda>todo. todo_id todo = i)
                                (\<lambda>todo. todo\<lparr>completed := True\<rparr>) (todos s)\<rparr>)
      | None \<Rightarrow> (Inl (NotFound i), s))"

text \<open>\<open>toggleTodo\<close> (lines 36 to 43).\<close>

definition toggleTodo :: "int \<Rightarrow> TodoList \<Rightarrow> (error + unit) \<times> TodoList" where
  "toggleTodo i s =
     (case array_find (\<lambda>todo. todo_id todo = i) (todos s) of
        Some todo \<Rightarrow>
          (Inr (), s\<lparr>todos := assign_found (\<lambda>todo. todo_id todo = i)
                                (\<lambda>todo. todo\<lparr>completed := \<not> completed todo\<rparr>) (todos s)\<rparr>)
      | None \<Rightarrow> (Inl (NotFound i), s))"

text \<open>\<open>removeTodo\<close> (lines 46 to 53).\<close>

definition removeTodo :: "int \<Rightarrow> TodoList \<Rightarrow> (error + unit) \<times> TodoList" where
  "removeTodo i s =
     (let index = array_findIndex (\<lambda>todo. todo_id todo = i) (todos s)
      in if index \<noteq> - 1
         then (Inr (), s\<lparr>todos := array_splice index 1 (todos s)\<rparr>)
         else (Inl (NotFound i), s))"

text \<open>\<open>listTodos\<close> (lines 56 to 58): the spread \<open>[...this.todos]\<close> has the elements of
  \<open>this.todos\<close> in their order.\<close>

definition listTodos :: "TodoList \<Rightarrow> (error + TodoItem list) \<times> TodoList" where
  "listTodos s = (Inr (todos s), s)"

text \<open>\<open>filterTodos\<close> (lines 61 to 63).\<close>

definition filterTodos :: "bool \<Rightarrow> TodoList \<Rightarrow> (error + TodoItem list) \<times> TodoList" where
  "filterTodos c s = (Inr (array_filter (\<lambda>todo. completed todo = c) (todos s)), s)"

text \<open>\<open>updateTodoTask\<close> (lines 66 to 73).\<close>

definition updateTodoTask :: "int \<Rightarrow> string \<Rightarrow> TodoList \<Rightarrow> (error + unit) \<times> TodoList" where
  "updateTodoTask i newTask s =
     (case array_find (\<lambda>todo. todo_id todo = i) (todos s) of
        Some todo \<Rightarrow>
          (Inr (), s\<lparr>todos := assign_found (\<lambda>todo. todo_id todo = i)
                                (\<lambda>todo. todo\<lparr>task := newTask\<rparr>) (todos s)\<rparr>)
      | None \<Rightarrow> (Inl (NotFound i), s))"

text \<open>\<open>updateTodoDueDate\<close> (lines 76 to 83).\<close>

definition updateTodoDueDate :: "int \<Rightarrow> Date option \<Rightarrow> TodoList \<Rightarrow> (error + unit) \<times> TodoList" where
  "updateTodoDueDate i newDueDate s =
     (case array_find (\<lambda>todo. todo_id todo = i) (todos s) of
        Some todo \<Rightarrow>
          (Inr (), s\<lparr>todos := assign_found (\<lambda>todo. todo_id todo = i)
                                (\<lambda>todo. todo\<lparr>dueDate := newDueDate\<rparr>) (todos s)\<rparr>)
      | None \<Rightarrow> (Inl (NotFound i), s))"

text \<open>\<open>clearCompleted\<close> (lines 86 to 88).\<close>

definition clearCompleted :: "TodoList \<Rightarrow> (error + unit) \<times> TodoList" where
  "clearCompleted s = (Inr (), s\<lparr>todos := array_filter (\<lambda>todo. \<not> completed todo) (todos s)\<rparr>)"

subsection \<open>Sequences of calls\<close>

text \<open>
  A call of one public method with its arguments, and what a caller gets back from it. A
  caller that catches the error (as \<open>handleToggleTodo\<close> and \<open>handleRemoveTodo\<close> do,
  lines 152 to 168) goes on with the store the failed call left.
\<close>

datatype call =
    AddTodo string "Date option"
  | CompleteTodo int
  | ToggleTodo int
  | RemoveTodo int
  | ListTodos
  | FilterTodos bool
  | UpdateTodoTask int string
  | UpdateTodoDueDate int "Date option"
  | ClearCompleted

datatype reply = Void | Items "TodoItem list"

definition void_reply :: "(error + unit) \<times> TodoList \<Rightarrow> (error + reply) \<times> TodoList" where
  "void_reply r = (map_sum (\<lambda>e. e) (\<lambda>_. Void) (fst r), snd r)"

definition items_reply :: "(error + TodoItem list) \<times> TodoList \<Rightarrow> (error + reply) \<times> TodoList" where
  "items_reply r = (map_sum (\<lambda>e. e) Items (fst r), snd r)"

fun exec :: "call \<Rightarrow> TodoList \<Rightarrow> (error + reply) \<times> TodoList" where
  "exec (AddTodo tsk due) s = void_reply (addTodo tsk due s)"
| "exec (CompleteTodo i) s = void_reply (completeTodo i s)"
| "exec (ToggleTodo i) s = void_reply (toggleTodo i s)"
| "exec (RemoveTodo i) s = void_reply (removeTodo i s)"
| "exec ListTodos s = items_reply (listTodos s)"
| "exec (FilterTodos c) s = items_reply (filterTodos c s)"
| "exec (UpdateTodoTask i newTask) s = void_reply (updateTodoTask i newTask s)"
| "exec (UpdateTodoDueDate i newDueDate) s = void_reply (updateTodoDueDate i newDueDate s)"
| "exec ClearCompleted s = void_reply (clearCompleted s)"

text \<open>The store after a sequence of calls, each one started on the store the previous one
  left, whether it returned or threw.\<close>

fun run :: "call list \<Rightarrow> TodoList \<Rightarrow> TodoList" where
  "run [] s = s"
| "run (c # cs) s = run cs (snd (exec c s))"

text \<open>The id the call is keyed by, for the five id-keyed methods.\<close>

fun call_id :: "call \<Rightarrow> int option" where
  "call_id (CompleteTodo i) = Some i"
| "call_id (ToggleTodo i) = Some i"
| "call_id (RemoveTodo i) = Some i"
| "call_id (UpdateTodoTask i newTask) = Some i"
| "call_id (UpdateTodoDueDate i newDueDate) = Some i"
| "call_id c = None"

text \<open>The ids of the stored tasks, in the order of the array.\<close>

definition ids :: "TodoList \<Rightarrow> int list" where
  "ids s = map todo_id (todos s)"





text \<open>The store of example scenario 1 of the specification: two tasks, the second with a
  due date (2024-01-01 as a time value).\<close>

definition two_todos :: TodoList where
  "two_todos =
     run [AddTodo ''Buy milk'' None, AddTodo ''Walk dog'' (Some 1704067200000)] new_TodoList"

section \<open>The store on a heap\<close>

text \<open>
  In the running program the array \<open>this.todos\<close> and every \<open>TodoItem\<close> are objects
  that are reached through references, and \<open>listTodos\<close> and \<open>filterTodos\<close> hand
  references to their caller. The heap is the sequence of the cells allocated so far, a task
  object or an array of references each; a reference is the position of a cell, and an
  allocation appends a cell, so a new reference is one that no cell had before.
\<close>

type_synonym ref = nat

datatype cell = Obj TodoItem | Arr "ref list"

type_synonym heap = "cell list"

text \<open>A \<open>TodoList\<close> instance: \<open>todos\<close> holds the reference of an array.\<close>

record TodoList_h =
  todos_ref :: ref
  nextId_h :: int

definition empty_heap :: heap where
  "empty_heap = []"

text \<open>The first reference not yet allocated, and the task object or the array that a
  reference points at (\<open>None\<close> when the cell is of the other kind or not allocated).\<close>

definition limit :: "heap \<Rightarrow> ref" where
  "limit h = length h"

definition objects :: "heap \<Rightarrow> ref \<rightharpoonup> TodoItem" where
  "objects h r =
     (if r < length h then (case h ! r of Obj todo \<Rightarrow> Some todo | Arr rs \<Rightarrow> None) else None)"

definition arrays :: "heap \<Rightarrow> ref \<rightharpoonup> ref list" where
  "arrays h a =
     (if a < length h then (case h ! a of Obj todo \<Rightarrow> None | Arr rs \<Rightarrow> Some rs) else None)"

text \<open>An object literal and an array literal (or an array method that returns a new array)
  allocate a cell.\<close>

definition new_object :: "TodoItem \<Rightarrow> heap \<Rightarrow> ref \<times> heap" where
  "new_object v h = (length h, h @ [Obj v])"

definition new_array :: "ref list \<Rightarrow> heap \<Rightarrow> ref \<times> heap" where
  "new_array rs h = (length h, h @ [Arr rs])"

text \<open>Reading an array; a reference of the program always points at an allocated array, so
  the second case is there only to make the function total.\<close>

definition get_array :: "heap \<Rightarrow> ref \<Rightarrow> ref list" where
  "get_array h a = (case arrays h a of Some rs \<Rightarrow> rs | None \<Rightarrow> [])"

text \<open>Any in-place change of the array at \<open>a\<close> (\<open>push\<close>, \<open>splice\<close>,
  \<open>sort\<close>, an element assignment, ...) leaves it with some new content \<open>rs\<close>.\<close>

definition set_array :: "ref \<Rightarrow> ref list \<Rightarrow> heap \<Rightarrow> heap" where
  "set_array a rs h = (case arrays h a of Some old \<Rightarrow> h[a := Arr rs] | None \<Rightarrow> h)"

text \<open>A field assignment \<open>todo.f = v\<close> through the reference \<open>r\<close>.\<close>

definition assign_field :: "ref \<Rightarrow> (TodoItem \<Rightarrow> TodoItem) \<Rightarrow> heap \<Rightarrow> heap" where
  "assign_field r f h = (case objects h r of Some todo \<Rightarrow> h[r := Obj (f todo)] | None \<Rightarrow> h)"

text \<open>A callback \<open>todo => p(todo)\<close> of \<open>find\<close>, \<open>findIndex\<close> or \<open>filter\<close>,
  applied to the object behind a reference of the array.\<close>

definition holds :: "heap \<Rightarrow> (TodoItem \<Rightarrow> bool) \<Rightarrow> ref \<Rightarrow> bool" where
  "holds h p r = (case objects h r of Some todo \<Rightarrow> p todo | None \<Rightarrow> False)"

text \<open>The constructor and the methods, on the heap.\<close>

definition new_TodoList_h :: "heap \<Rightarrow> heap \<times> TodoList_h" where
  "new_TodoList_h h = (let (a, h1) = new_array [] h in (h1, \<lparr>todos_ref = a, nextId_h = 1\<rparr>))"

definition addTodo_h :: "string \<Rightarrow> Date option \<Rightarrow> heap \<times> TodoList_h \<Rightarrow> heap \<times> TodoList_h" where
  "addTodo_h tsk due hs =
     (let (h, s) = hs;
          (newTodo, h1) =
             new_object \<lparr>todo_id = nextId_h s, task = tsk, completed = False, dueDate = due\<rparr> h;
          s1 = s\<lparr>nextId_h := js_incr (nextId_h s)\<rparr>
      in (set_array (todos_ref s1) (array_push (get_array h1 (todos_ref s1)) newTodo) h1, s1))"

text \<open>\<open>[...this.todos]\<close> is a new array with the references of \<open>this.todos\<close>; the
  method returns the reference of the new array.\<close>

definition listTodos_h :: "heap \<times> TodoList_h \<Rightarrow> ref \<times> heap \<times> TodoList_h" where
  "listTodos_h hs =
     (let (h, s) = hs; (a, h1) = new_array (get_array h (todos_ref s)) h in (a, h1, s))"

text \<open>\<open>filter\<close> returns a new array with the references that pass the callback.\<close>

definition filterTodos_h :: "bool \<Rightarrow> heap \<times> TodoList_h \<Rightarrow> ref \<times> heap \<times> TodoList_h" where
  "filterTodos_h c hs =
     (let (h, s) = hs;
          (a, h1) = new_array (array_filter (holds h (\<lambda>todo. completed todo = c))
                                 (get_array h (todos_ref s))) h
      in (a, h1, s))"

text \<open>The methods that look a task up find a reference in the array and assign to a field
  of the object behind it; \<open>removeTodo\<close> splices the array in place; \<open>clearCompleted\<close>
  binds \<open>this.todos\<close> to the new array that \<open>filter\<close> returns.\<close>

definition completeTodo_h :: "int \<Rightarrow> heap \<times> TodoList_h \<Rightarrow> (error + unit) \<times> heap \<times> TodoList_h" where
  "completeTodo_h i hs =
     (let (h, s) = hs
      in case array_find (holds h (\<lambda>todo. todo_id todo = i)) (get_array h (todos_ref s)) of
           Some todo \<Rightarrow> (Inr (), assign_field todo (\<lambda>todo. todo\<lparr>completed := True\<rparr>) h, s)
         | None \<Rightarrow> (Inl (NotFound i), h, s))"

definition toggleTodo_h :: "int \<Rightarrow> heap \<times> TodoList_h \<Rightarrow> (error + unit) \<times> heap \<times> TodoList_h" where
  "toggleTodo_h i hs =
     (let (h, s) = hs
      in case array_find (holds h (\<lambda>todo. todo_id todo = i)) (get_array h (todos_ref s)) of
           Some todo \<Rightarrow>
             (Inr (), assign_field todo (\<lambda>todo. todo\<lparr>completed := \<not> completed todo\<rparr>) h, s)
         | None \<Rightarrow> (Inl (NotFound i), h, s))"

definition removeTodo_h :: "int \<Rightarrow> heap \<times> TodoList_h \<Rightarrow> (error + unit) \<times> heap \<times> TodoList_h" where
  "removeTodo_h i hs =
     (let (h, s) = hs;
          index = array_findIndex (holds h (\<lambda>todo. todo_id todo = i)) (get_array h (todos_ref s))
      in if index \<noteq> - 1
         then (Inr (), set_array (todos_ref s) (array_splice index 1 (get_array h (todos_ref s))) h, s)
         else (Inl (NotFound i), h, s))"

definition updateTodoTask_h ::
  "int \<Rightarrow> string \<Rightarrow> heap \<times> TodoList_h \<Rightarrow> (error + unit) \<times> heap \<times> TodoList_h" where
  "updateTodoTask_h i newTask hs =
     (let (h, s) = hs
      in case array_find (holds h (\<lambda>todo. todo_id todo = i)) (get_array h (todos_ref s)) of
           Some todo \<Rightarrow> (Inr (), assign_field todo (\<lambda>todo. todo\<lparr>task := newTask\<rparr>) h, s)
         | None \<Rightarrow> (Inl (NotFound i), h, s))"

definition updateTodoDueDate_h ::
  "int \<Rightarrow> Date option \<Rightarrow> heap \<times> TodoList_h \<Rightarrow> (error + unit) \<times> heap \<times> TodoList_h" where
  "updateTodoDueDate_h i newDueDate hs =
     (let (h, s) = hs
      in case array_find (holds h (\<lambda>todo. todo_id todo = i)) (get_array h (todos_ref s)) of
           Some todo \<Rightarrow> (Inr (), assign_field todo (\<lambda>todo. todo\<lparr>dueDate := newDueDate\<rparr>) h, s)
         | None \<Rightarrow> (Inl (NotFound i), h, s))"

definition clearCompleted_h :: "heap \<times> TodoList_h \<Rightarrow> (error + unit) \<times> heap \<times> TodoList_h" where
  "clearCompleted_h hs =
     (let (h, s) = hs;
          (a, h1) = new_array (array_filter (holds h (\<lambda>todo. \<not> completed todo))
                                 (get_array h (todos_ref s))) h
      in (Inr (), h1, s\<lparr>todos_ref := a\<rparr>))"

text \<open>The task records behind the references of an array, and the value-level store that a
  heap and a \<open>TodoList\<close> instance stand for.\<close>

definition deref :: "heap \<Rightarrow> ref \<Rightarrow> TodoItem list" where
  "deref h a = List.map_filter (objects h) (get_array h a)"

definition store_of :: "heap \<times> TodoList_h \<Rightarrow> TodoList" where
  "store_of hs = (let (h, s) = hs in \<lparr>todos = deref h (todos_ref s), nextId = nextId_h s\<rparr>)"




text \<open>The references in the array of the store, in the order of the array.\<close>

definition refs :: "heap \<times> TodoList_h \<Rightarrow> ref list" where
  "refs hs = get_array (fst hs) (todos_ref (snd hs))"




text \<open>
  A caller of \<open>listTodos\<close>: on a store with two tasks it runs
  \<open>const xs = list.listTodos(); xs[0].id = 2\<close> (the fields of \<open>TodoItem\<close> are not
  \<open>readonly\<close>).
\<close>

definition two_tasks :: "heap \<times> TodoList_h" where
  "two_tasks = addTodo_h ''B'' None (addTodo_h ''A'' None (new_TodoList_h empty_heap))"

definition tampered :: "heap \<times> TodoList_h" where
  "tampered =
     (let (a, h, s) = listTodos_h two_tasks
      in (assign_field (get_array h a ! 0) (\<lambda>todo. todo\<lparr>todo_id := 2\<rparr>) h, s))"

section \<open>The array methods and the list functions of HOL\<close>

lemma array_filter_eq: "array_filter p xs = filter p xs"
  by (induction xs) simp_all

lemma array_find_None: "array_find p xs = None \<longleftrightarrow> (\<forall>x \<in> set xs. \<not> p x)"
  by (induction xs) simp_all

lemma array_find_Some: "array_find p xs = Some y \<Longrightarrow> y \<in> set xs \<and> p y"
  by (induction xs) (auto split: if_splits)

lemma findIndex_from_none: "0 \<le> k \<Longrightarrow> findIndex_from p xs k = - 1 \<longleftrightarrow> (\<forall>x \<in> set xs. \<not> p x)"
  by (induction xs arbitrary: k) auto

lemma array_findIndex_none: "array_findIndex p xs = - 1 \<longleftrightarrow> (\<forall>x \<in> set xs. \<not> p x)"
  by (simp add: array_findIndex_def findIndex_from_none)

lemma assign_found_length: "length (assign_found p f xs) = length xs"
  by (induction xs) simp_all

lemma assign_found_absent: "\<forall>x \<in> set xs. \<not> p x \<Longrightarrow> assign_found p f xs = xs"
  by (induction xs) simp_all


lemma assign_found_twice:
  "(\<And>x. p x \<Longrightarrow> p (f x)) \<Longrightarrow>
   assign_found p g (assign_found p f xs) = assign_found p (\<lambda>x. g (f x)) xs"
  by (induction xs) simp_all

lemma assign_found_same: "(\<And>x. p x \<Longrightarrow> f x = x) \<Longrightarrow> assign_found p f xs = xs"
  by (induction xs) simp_all

lemma array_find_assign_found:
  "(\<And>x. p x \<Longrightarrow> p (f x)) \<Longrightarrow>
   array_find p (assign_found p f xs) = map_option f (array_find p xs)"
  by (induction xs) simp_all

lemma findIndex_from_takeWhile:
  "\<exists>x \<in> set xs. p x \<Longrightarrow>
   findIndex_from p xs k = k + int (length (takeWhile (\<lambda>x. \<not> p x) xs))"
proof (induction xs arbitrary: k)
  case Nil
  then show ?case by simp
next
  case (Cons a xs)
  show ?case
  proof (cases "p a")
    case True
    then show ?thesis by simp
  next
    case False
    with Cons.prems have "\<exists>x \<in> set xs. p x" by auto
    from Cons.IH [OF this, of "k + 1"] False show ?thesis by simp
  qed
qed

lemma array_findIndex_takeWhile:
  "\<exists>x \<in> set xs. p x \<Longrightarrow>
   array_findIndex p xs = int (length (takeWhile (\<lambda>x. \<not> p x) xs))"
  by (simp add: array_findIndex_def findIndex_from_takeWhile)

lemma takeWhile_lt: "\<exists>x \<in> set xs. p x \<Longrightarrow> length (takeWhile (\<lambda>x. \<not> p x) xs) < length xs"
  by (induction xs) auto

lemma array_find_takeWhile:
  "\<exists>x \<in> set xs. p x \<Longrightarrow>
   array_find p xs = Some (xs ! length (takeWhile (\<lambda>x. \<not> p x) xs))"
  by (induction xs) auto

lemma assign_found_update:
  "\<exists>x \<in> set xs. p x \<Longrightarrow>
   assign_found p f xs =
     xs[length (takeWhile (\<lambda>x. \<not> p x) xs) := f (xs ! length (takeWhile (\<lambda>x. \<not> p x) xs))]"
  by (induction xs) auto



section \<open>The ids of the stored tasks\<close>

lemma find_id_None: "array_find (\<lambda>todo. todo_id todo = i) (todos s) = None \<longleftrightarrow> i \<notin> set (ids s)"
  by (auto simp: array_find_None ids_def)

lemma find_id_Some: "i \<in> set (ids s) \<Longrightarrow> \<exists>todo. array_find (\<lambda>todo. todo_id todo = i) (todos s) = Some todo"
  using find_id_None [of i s] by (cases "array_find (\<lambda>todo. todo_id todo = i) (todos s)") auto

lemma findIndex_id_none: "array_findIndex (\<lambda>todo. todo_id todo = i) (todos s) = - 1 \<longleftrightarrow> i \<notin> set (ids s)"
  by (auto simp: array_findIndex_none ids_def)

lemma ids_exists: "i \<in> set (ids s) \<Longrightarrow> \<exists>x \<in> set (todos s). todo_id x = i"
  by (auto simp: ids_def)


lemma nextId_addTodo: "nextId (snd (addTodo tsk due s)) = js_incr (nextId s)"
  by (simp add: addTodo_def Let_def)











section \<open>The counter and the history of a sequence of calls\<close>




























lemmas store_defs =
  void_reply_def items_reply_def addTodo_def completeTodo_def toggleTodo_def removeTodo_def
  listTodos_def filterTodos_def updateTodoTask_def updateTodoDueDate_def clearCompleted_def
  new_TodoList_def array_push_def array_findIndex_def array_splice_def ids_def Let_def
  js_incr_def max_nextId_def

lemma two_todos_eq:
  "two_todos =
     \<lparr>todos = [\<lparr>todo_id = 1, task = ''Buy milk'', completed = False, dueDate = None\<rparr>,
               \<lparr>todo_id = 2, task = ''Walk dog'', completed = False,
                  dueDate = Some 1704067200000\<rparr>],
      nextId = 3\<rparr>"
  by (simp add: two_todos_def store_defs)

section \<open>Cells and references\<close>

lemma unallocated: "limit h \<le> a \<Longrightarrow> objects h a = None \<and> arrays h a = None"
  by (simp add: limit_def objects_def arrays_def)


lemma arrays_lt: "arrays h a = Some rs \<Longrightarrow> a < limit h"
  by (simp add: limit_def arrays_def split: if_splits)





lemma objects_new_array: "objects (snd (new_array rs h)) = objects h"
  by (rule ext) (auto simp: new_array_def objects_def nth_append less_Suc_eq)

lemma arrays_new_array: "arrays (snd (new_array rs h)) = (arrays h)(limit h \<mapsto> rs)"
  by (rule ext) (auto simp: new_array_def arrays_def limit_def nth_append less_Suc_eq)




lemma objects_set_array: "objects (set_array a rs h) = objects h"
  by (rule ext)
     (auto simp: set_array_def objects_def arrays_def nth_list_update
        split: option.splits cell.splits if_splits)

lemma arrays_set_array:
  "arrays h a = Some old \<Longrightarrow> arrays (set_array a rs h) = (arrays h)(a \<mapsto> rs)"
  by (rule ext)
     (auto simp: set_array_def arrays_def nth_list_update split: option.splits if_splits)

lemma set_array_unallocated: "arrays h a = None \<Longrightarrow> set_array a rs h = h"
  by (simp add: set_array_def)




lemma get_array_new_array:
  "get_array (snd (new_array rs h)) a = (if a = limit h then rs else get_array h a)"
  by (simp add: get_array_def arrays_new_array)


lemma get_array_set_array:
  "get_array (set_array a rs h) b = (if b = a \<and> arrays h a \<noteq> None then rs else get_array h b)"
  by (cases "arrays h a") (auto simp: get_array_def arrays_set_array set_array_unallocated)


section \<open>The store on a heap and the value-level store\<close>

lemma map_filter_holds:
  "List.map_filter (objects h) (filter (holds h p) rs) = filter p (List.map_filter (objects h) rs)"
  by (induction rs) (auto simp: List.map_filter_simps holds_def split: option.splits)























section \<open>The references of the stored tasks\<close>
















lemmas heap_defs =
  new_TodoList_h_def addTodo_h_def completeTodo_h_def toggleTodo_h_def removeTodo_h_def
  listTodos_h_def filterTodos_h_def updateTodoTask_h_def updateTodoDueDate_h_def
  clearCompleted_h_def empty_heap_def new_object_def new_array_def get_array_def set_array_def
  assign_field_def holds_def objects_def arrays_def limit_def refs_def deref_def store_of_def
  array_push_def array_findIndex_def array_splice_def js_incr_def max_nextId_def
  List.map_filter_def split_def Let_def

lemma two_tasks_eq:
  "two_tasks =
     ([Arr [1, 2],
       Obj \<lparr>todo_id = 1, task = ''A'', completed = False, dueDate = None\<rparr>,
       Obj \<lparr>todo_id = 2, task = ''B'', completed = False, dueDate = None\<rparr>],
      \<lparr>todos_ref = 0, nextId_h = 3\<rparr>)"
  by (simp add: two_tasks_def heap_defs)

section \<open>The claims\<close>

subsection \<open>Ids\<close>




subsection \<open>addTodo\<close>




subsection \<open>NotFound\<close>




subsection \<open>listTodos\<close>



subsection \<open>clearCompleted\<close>

text \<open>
  C5. On every store \<open>clearCompleted\<close> returns (it does not throw, also when no task is
  completed), leaves \<open>nextId\<close> as it was, and leaves as the task sequence the tasks whose
  \<open>completed\<close> is false, in the order they had: the tasks removed are exactly the
  completed ones, the survivors are a subsequence of the old sequence, and a second call in a
  row leaves the store that the first call left.
\<close>

theorem clearCompleted_spec:
  "fst (clearCompleted s) = Inr ()
   \<and> todos (snd (clearCompleted s)) = filter (\<lambda>todo. \<not> completed todo) (todos s)
   \<and> set (todos s) - set (todos (snd (clearCompleted s))) = {todo \<in> set (todos s). completed todo}
   \<and> subseq (todos (snd (clearCompleted s))) (todos s)
   \<and> nextId (snd (clearCompleted s)) = nextId s
   \<and> clearCompleted (snd (clearCompleted s)) = clearCompleted s"
  by (auto simp: clearCompleted_def array_filter_eq)

theorem clearCompleted_spec_witness:
  "clearCompleted (run [AddTodo ''A'' None, AddTodo ''B'' None, CompleteTodo 1] new_TodoList)
     = (Inr (), \<lparr>todos = [\<lparr>todo_id = 2, task = ''B'', completed = False, dueDate = None\<rparr>],
                 nextId = 3\<rparr>)"
  using clearCompleted_spec
    [of "run [AddTodo ''A'' None, AddTodo ''B'' None, CompleteTodo 1] new_TodoList"]
  by (simp add: store_defs)

subsection \<open>filterTodos\<close>

text \<open>
  C6. On every store \<open>filterTodos c\<close> returns the stored tasks whose \<open>completed\<close>
  equals \<open>c\<close>, in the order of the store, and leaves the store as it is. The tasks
  returned for \<open>true\<close> and for \<open>false\<close> together are, as sets, exactly the tasks
  that \<open>listTodos\<close> returns, no task is in both, and each result is a subsequence of
  the listed sequence.
\<close>

theorem filterTodos_partition:
  "fst (filterTodos c s) = Inr (filter (\<lambda>todo. completed todo = c) (todos s))
   \<and> snd (filterTodos c s) = s
   \<and> (\<exists>ts fs xs. fst (filterTodos True s) = Inr ts \<and> fst (filterTodos False s) = Inr fs
         \<and> fst (listTodos s) = Inr xs \<and> set ts \<union> set fs = set xs \<and> set ts \<inter> set fs = {}
         \<and> subseq ts xs \<and> subseq fs xs)"
  by (auto simp: filterTodos_def listTodos_def array_filter_eq)

theorem filterTodos_partition_witness:
  "fst (filterTodos True (snd (toggleTodo 1 two_todos)))
     = Inr [\<lparr>todo_id = 1, task = ''Buy milk'', completed = True, dueDate = None\<rparr>]
   \<and> fst (filterTodos False (snd (toggleTodo 1 two_todos)))
     = Inr [\<lparr>todo_id = 2, task = ''Walk dog'', completed = False,
              dueDate = Some 1704067200000\<rparr>]"
  using filterTodos_partition [of True "snd (toggleTodo 1 two_todos)"]
    filterTodos_partition [of False "snd (toggleTodo 1 two_todos)"]
  by (simp add: two_todos_eq toggleTodo_def)

subsection \<open>toggleTodo\<close>

text \<open>
  C7. On every store that holds a task with the id, \<open>toggleTodo\<close> returns, the task that
  the lookup finds has its \<open>completed\<close> flag negated after one call, and after a second
  call in a row the flag has its original value again; the whole store is then as it was
  before the two calls.
\<close>

theorem toggleTodo_twice:
  assumes "i \<in> set (ids s)"
  shows "fst (toggleTodo i s) = Inr ()
    \<and> fst (toggleTodo i (snd (toggleTodo i s))) = Inr ()
    \<and> map_option completed (array_find (\<lambda>todo. todo_id todo = i) (todos (snd (toggleTodo i s))))
        = map_option (\<lambda>todo. \<not> completed todo) (array_find (\<lambda>todo. todo_id todo = i) (todos s))
    \<and> map_option completed
          (array_find (\<lambda>todo. todo_id todo = i) (todos (snd (toggleTodo i (snd (toggleTodo i s))))))
        = map_option completed (array_find (\<lambda>todo. todo_id todo = i) (todos s))
    \<and> snd (toggleTodo i (snd (toggleTodo i s))) = s"
proof -
  from find_id_Some [OF assms] obtain todo
    where f: "array_find (\<lambda>todo. todo_id todo = i) (todos s) = Some todo" by blast
  let ?p = "\<lambda>todo. todo_id todo = i"
  let ?f = "\<lambda>todo. todo\<lparr>completed := \<not> completed todo\<rparr>"
  define s1 where "s1 = s\<lparr>todos := assign_found ?p ?f (todos s)\<rparr>"
  have t1: "toggleTodo i s = (Inr (), s1)"
    by (simp add: toggleTodo_def f s1_def)
  have f1: "array_find ?p (todos s1) = Some (?f todo)"
    by (simp add: s1_def array_find_assign_found f)
  have twice: "assign_found ?p ?f (todos s1) = todos s"
    by (simp add: s1_def assign_found_twice assign_found_same)
  have t2: "toggleTodo i s1 = (Inr (), s)"
    by (simp add: toggleTodo_def f1 twice) (simp add: s1_def)
  show ?thesis
    by (simp add: t1 t2 f f1)
qed

theorem toggleTodo_twice_witness:
  "1 \<in> set (ids two_todos)
   \<and> map_option completed (array_find (\<lambda>todo. todo_id todo = 1) (todos (snd (toggleTodo 1 two_todos))))
       = Some True
   \<and> snd (toggleTodo 1 (snd (toggleTodo 1 two_todos))) = two_todos"
  using toggleTodo_twice [of 1 two_todos]
  by (simp add: two_todos_eq ids_def)

subsection \<open>updateTodoTask\<close>

text \<open>
  C8. On every store that holds a task with the id, and for every new description (the empty
  string too: the store does not look at it), \<open>updateTodoTask\<close> returns and changes one
  slot of the task sequence, the first one whose task has the id: that task gets the new
  description and keeps its id, its \<open>completed\<close> flag and its due date. The sequence
  keeps its length, every other slot is unchanged, and so is \<open>nextId\<close>.
\<close>

theorem updateTodoTask_frame:
  assumes "i \<in> set (ids s)"
  shows "\<exists>k < length (todos s).
      k = nat (array_findIndex (\<lambda>todo. todo_id todo = i) (todos s))
    \<and> todo_id (todos s ! k) = i
    \<and> updateTodoTask i newTask s = (Inr (), s\<lparr>todos := (todos s)[k := (todos s ! k)\<lparr>task := newTask\<rparr>]\<rparr>)
    \<and> length (todos (snd (updateTodoTask i newTask s))) = length (todos s)
    \<and> task (todos (snd (updateTodoTask i newTask s)) ! k) = newTask
    \<and> todo_id (todos (snd (updateTodoTask i newTask s)) ! k) = todo_id (todos s ! k)
    \<and> completed (todos (snd (updateTodoTask i newTask s)) ! k) = completed (todos s ! k)
    \<and> dueDate (todos (snd (updateTodoTask i newTask s)) ! k) = dueDate (todos s ! k)
    \<and> (\<forall>j < length (todos s). j \<noteq> k \<longrightarrow> todos (snd (updateTodoTask i newTask s)) ! j = todos s ! j)
    \<and> nextId (snd (updateTodoTask i newTask s)) = nextId s"
proof -
  let ?p = "\<lambda>todo. todo_id todo = i"
  let ?k = "length (takeWhile (\<lambda>x. \<not> ?p x) (todos s))"
  from ids_exists [OF assms] have ex: "\<exists>x \<in> set (todos s). ?p x" .
  have k: "?k < length (todos s)" using ex by (rule takeWhile_lt)
  have idx: "nat (array_findIndex ?p (todos s)) = ?k"
    using ex by (simp add: array_findIndex_takeWhile)
  have f: "array_find ?p (todos s) = Some (todos s ! ?k)"
    using ex by (rule array_find_takeWhile)
  from array_find_Some [OF f] have pk: "todo_id (todos s ! ?k) = i" by simp
  have u: "updateTodoTask i newTask s
      = (Inr (), s\<lparr>todos := (todos s)[?k := (todos s ! ?k)\<lparr>task := newTask\<rparr>]\<rparr>)"
    using ex by (simp add: updateTodoTask_def f assign_found_update)
  show ?thesis
    apply (rule exI [of _ ?k])
    using k pk by (simp add: idx u)
qed

theorem updateTodoTask_frame_witness:
  "2 \<in> set (ids two_todos)
   \<and> updateTodoTask 2 ''Walk the dog'' two_todos
       = (Inr (),
          \<lparr>todos = [\<lparr>todo_id = 1, task = ''Buy milk'', completed = False, dueDate = None\<rparr>,
                    \<lparr>todo_id = 2, task = ''Walk the dog'', completed = False,
                       dueDate = Some 1704067200000\<rparr>],
           nextId = 3\<rparr>)"
  using updateTodoTask_frame [of 2 two_todos "''Walk the dog''"]
  by (simp add: two_todos_eq ids_def array_findIndex_def)

subsection \<open>What listing and filtering return\<close>

text \<open>
  C9, as the code has it. Let the array of the store be allocated on the heap. Then
  \<open>listTodos\<close> and \<open>filterTodos\<close> return the reference of a newly allocated array:
  the reference is the first one that the heap has not allocated, no array and no task object
  was at it, and the heap after the call is the heap before it with that one array appended,
  so no cell of the old heap is changed and no task object is created. The reference differs
  from that of the store's own array. The new array holds the references of the store's own
  task records, all of them in the order of the store for \<open>listTodos\<close> and those passing
  the flag, in that order, for \<open>filterTodos\<close>; read through the heap, it is the sequence
  that the value-level method returns. The call leaves the store as it is, and whatever
  content a caller gives to the returned array afterwards, the store (its task sequence, the
  tasks and \<open>nextId\<close>) stays as it is. The task records are shared with the store, not
  copied.
\<close>

theorem listing_returns_fresh_array:
  assumes "arrays h (todos_ref s) \<noteq> None"
  shows "(\<exists>a h1. listTodos_h (h, s) = (a, h1, s)
            \<and> a = limit h \<and> arrays h a = None \<and> objects h a = None
            \<and> h1 = h @ [Arr (get_array h (todos_ref s))]
            \<and> a \<noteq> todos_ref s
            \<and> get_array h1 a = get_array h (todos_ref s)
            \<and> objects h1 = objects h
            \<and> fst (listTodos (store_of (h, s))) = Inr (deref h1 a)
            \<and> store_of (h1, s) = store_of (h, s)
            \<and> (\<forall>rs. store_of (set_array a rs h1, s) = store_of (h, s)))
       \<and> (\<exists>a h1. filterTodos_h c (h, s) = (a, h1, s)
            \<and> a = limit h \<and> arrays h a = None \<and> objects h a = None
            \<and> h1 = h @ [Arr (filter (holds h (\<lambda>todo. completed todo = c))
                                (get_array h (todos_ref s)))]
            \<and> a \<noteq> todos_ref s
            \<and> get_array h1 a
                = filter (holds h (\<lambda>todo. completed todo = c)) (get_array h (todos_ref s))
            \<and> objects h1 = objects h
            \<and> fst (filterTodos c (store_of (h, s))) = Inr (deref h1 a)
            \<and> store_of (h1, s) = store_of (h, s)
            \<and> (\<forall>rs. store_of (set_array a rs h1, s) = store_of (h, s)))"
proof -
  from assms obtain old where "arrays h (todos_ref s) = Some old" by auto
  from arrays_lt [OF this] have fresh: "limit h \<noteq> todos_ref s" by simp
  have un: "arrays h (limit h) = None" "objects h (limit h) = None"
    using unallocated [of h "limit h"] by simp_all
  have ga: "get_array (h @ [Arr rs]) a = (if a = limit h then rs else get_array h a)" for rs a
    using get_array_new_array [of rs h a] by (simp add: new_array_def)
  have ob: "objects (h @ [Arr rs]) = objects h" for rs
    using objects_new_array [of rs h] by (simp add: new_array_def)
  have same: "store_of (h @ [Arr rs], s) = store_of (h, s)" for rs
    using fresh by (simp add: store_of_def deref_def ga ob)
  have indep: "store_of (set_array (limit h) rs' (h @ [Arr rs]), s) = store_of (h, s)"
    for rs rs'
    using fresh by (simp add: store_of_def deref_def get_array_set_array objects_set_array ga ob)
  have l: "listTodos_h (h, s) = (limit h, h @ [Arr (get_array h (todos_ref s))], s)"
    by (simp add: listTodos_h_def new_array_def limit_def)
  have f: "filterTodos_h c (h, s)
      = (limit h,
         h @ [Arr (filter (holds h (\<lambda>todo. completed todo = c)) (get_array h (todos_ref s)))],
         s)"
    by (simp add: filterTodos_h_def new_array_def limit_def array_filter_eq)
  have lv: "fst (listTodos (store_of (h, s)))
      = Inr (deref (h @ [Arr (get_array h (todos_ref s))]) (limit h))"
    by (simp add: listTodos_def store_of_def deref_def ga ob)
  have fv: "fst (filterTodos c (store_of (h, s)))
      = Inr (deref (h @ [Arr (filter (holds h (\<lambda>todo. completed todo = c))
                                (get_array h (todos_ref s)))])
               (limit h))"
    by (simp add: filterTodos_def store_of_def deref_def ga ob array_filter_eq map_filter_holds)
  have first: "\<exists>a h1. listTodos_h (h, s) = (a, h1, s)
            \<and> a = limit h \<and> arrays h a = None \<and> objects h a = None
            \<and> h1 = h @ [Arr (get_array h (todos_ref s))]
            \<and> a \<noteq> todos_ref s
            \<and> get_array h1 a = get_array h (todos_ref s)
            \<and> objects h1 = objects h
            \<and> fst (listTodos (store_of (h, s))) = Inr (deref h1 a)
            \<and> store_of (h1, s) = store_of (h, s)
            \<and> (\<forall>rs. store_of (set_array a rs h1, s) = store_of (h, s))"
    unfolding l
    apply (intro exI conjI)
              apply (rule refl)
             apply (rule refl)
    using fresh un lv same indep by (simp_all add: ga ob)
  have second: "\<exists>a h1. filterTodos_h c (h, s) = (a, h1, s)
            \<and> a = limit h \<and> arrays h a = None \<and> objects h a = None
            \<and> h1 = h @ [Arr (filter (holds h (\<lambda>todo. completed todo = c))
                                (get_array h (todos_ref s)))]
            \<and> a \<noteq> todos_ref s
            \<and> get_array h1 a
                = filter (holds h (\<lambda>todo. completed todo = c)) (get_array h (todos_ref s))
            \<and> objects h1 = objects h
            \<and> fst (filterTodos c (store_of (h, s))) = Inr (deref h1 a)
            \<and> store_of (h1, s) = store_of (h, s)
            \<and> (\<forall>rs. store_of (set_array a rs h1, s) = store_of (h, s))"
    unfolding f
    apply (intro exI conjI)
              apply (rule refl)
             apply (rule refl)
    using fresh un fv same indep by (simp_all add: ga ob)
  from first second show ?thesis by (rule conjI)
qed

theorem listing_returns_fresh_array_witness:
  "arrays (fst two_tasks) (todos_ref (snd two_tasks)) \<noteq> None
   \<and> listTodos_h two_tasks = (3, fst two_tasks @ [Arr [1, 2]], snd two_tasks)
   \<and> arrays (fst two_tasks) 3 = None
   \<and> filterTodos_h False two_tasks = (3, fst two_tasks @ [Arr [1, 2]], snd two_tasks)
   \<and> store_of (set_array (fst (listTodos_h two_tasks)) [] (fst (snd (listTodos_h two_tasks))),
                snd two_tasks)
       = store_of two_tasks"
  using listing_returns_fresh_array [of "fst two_tasks" "snd two_tasks" False]
  by (simp add: two_tasks_eq heap_defs)

text \<open>
  The claim as stated says that mutating the task records of the returned sequence leaves the
  identity invariants of the store intact. In \<open>tampered\<close> a caller has assigned 2 to the
  \<open>id\<close> field of the first record that \<open>listTodos\<close> returned: the store, which held
  the ids 1 and 2, now holds the id 2 twice.
\<close>

theorem shared_records_counterexample:
  "ids (store_of two_tasks) = [1, 2] \<and> ids (store_of tampered) = [2, 2]
   \<and> \<not> distinct (ids (store_of tampered))"
  by (simp add: tampered_def two_tasks_eq heap_defs ids_def)

subsection \<open>A failed call\<close>

text \<open>
  C10. On every store, a call of \<open>completeTodo\<close>, \<open>toggleTodo\<close>, \<open>removeTodo\<close>,
  \<open>updateTodoTask\<close> or \<open>updateTodoDueDate\<close> with an id that no stored task has throws
  the not-found error and leaves the whole store, the task sequence and \<open>nextId\<close>, exactly
  as it was before the call.
\<close>

theorem failed_call_leaves_store:
  "call_id c = Some i \<Longrightarrow> i \<notin> set (ids s) \<Longrightarrow> exec c s = (Inl (NotFound i), s)"
  by (cases c)
     (simp_all add: void_reply_def completeTodo_def toggleTodo_def removeTodo_def
        updateTodoTask_def updateTodoDueDate_def find_id_None [THEN iffD2]
        findIndex_id_none [THEN iffD2])

theorem failed_call_leaves_store_witness:
  "call_id (UpdateTodoDueDate 5 None) = Some 5
   \<and> 5 \<notin> set (ids two_todos)
   \<and> exec (UpdateTodoDueDate 5 None) two_todos = (Inl (NotFound 5), two_todos)
   \<and> exec (RemoveTodo 5) two_todos = (Inl (NotFound 5), two_todos)"
  using failed_call_leaves_store [of "UpdateTodoDueDate 5 None" 5 two_todos]
    failed_call_leaves_store [of "RemoveTodo 5" 5 two_todos]
  by (simp add: two_todos_eq ids_def)

end
